theory Spec2Isabelle
  imports Complex_Main
begin

section \<open>Data model (types.ts)\<close>

text \<open>
  A JavaScript \<open>number\<close> is read as a real number: rounding, NaN and the infinities of
  IEEE doubles are outside this development. Every property below is about the rules
  of the game loop (ordering, comparisons, counters), which the source states on numbers.
\<close>

type_synonym number = real

record GameStats =
  score :: number
  hits :: number
  misses :: number
  accuracy :: number
  avgReactionTime :: number
  bestStreak :: number

record Target =
  target_id :: number
  target_x :: number
  target_y :: number
  radius :: number
  spawnTime :: number
  lifeTime :: number
  isHit :: bool

record HandCursor =
  hand_x :: number
  hand_y :: number
  isPinching :: bool

section \<open>Geometry utilities (utils/math)\<close>

definition lerp :: "number \<Rightarrow> number \<Rightarrow> number \<Rightarrow> number" where
  "lerp start end' factor = start + (end' - start) * factor"

definition distance :: "number \<Rightarrow> number \<Rightarrow> number \<Rightarrow> number \<Rightarrow> number" where
  "distance x1 y1 x2 y2 = sqrt ((x2 - x1) ^ 2 + (y2 - y1) ^ 2)"

text \<open>\<open>randomRange\<close> takes the value that \<open>Math.random()\<close> returned as its first argument.\<close>

definition randomRange :: "number \<Rightarrow> number \<Rightarrow> number \<Rightarrow> number" where
  "randomRange rnd mn mx = rnd * (mx - mn) + mn"

section \<open>State of the game canvas (components/GameCanvas.tsx)\<close>

definition TARGET_RADIUS_BASE :: number where "TARGET_RADIUS_BASE = 40"
definition CANVAS_WIDTH :: number where "CANVAS_WIDTH = 1280"
definition CANVAS_HEIGHT :: number where "CANVAS_HEIGHT = 720"

text \<open>The object held by \<open>gameStateRef\<close>.\<close>

record LoopState =
  lastSpawn :: number
  startTime :: number
  currentStreak :: number
  reactionTimes :: "number list"
  lastShotTime :: number
  isPinchingPrevious :: bool
  cursorX :: number
  cursorY :: number

datatype sound = SndHit | SndMiss

text \<open>
  Targets are JavaScript objects: \<open>targetsRef.current\<close> and the filtered array
  \<open>activeTargets\<close> hold references to the same objects, and a hit is written through
  the second and read through the first. So targets live in a store, from references
  to objects; the arrays are lists of references. \<open>nextRef\<close> is the next unused
  reference; \<open>sounds\<close> logs the calls of \<open>playSound\<close>; \<open>timeLeft\<close> is the React state
  of that name.
\<close>

type_synonym ref = nat

record world =
  heap :: "ref \<Rightarrow> Target"
  nextRef :: ref
  targetsRef :: "ref list"
  statsRef :: GameStats
  gameStateRef :: LoopState
  timeLeft :: number
  sounds :: "sound list"

text \<open>
  What one animation frame reads from outside: the clock (\<open>Date.now()\<close> in \<open>tick\<close>), the
  shared hand cursor, and, for \<open>spawnTarget\<close>, its two further clock readings and three
  random numbers in the order the source draws them.
\<close>

record frame =
  now :: number
  hand :: HandCursor
  idNow :: number
  idRandom :: number
  xRandom :: number
  yRandom :: number
  spawnNow :: number

definition blankTarget :: Target where
  "blankTarget = \<lparr>target_id = 0, target_x = 0, target_y = 0, radius = 0, spawnTime = 0,
     lifeTime = 0, isHit = False\<rparr>"

text \<open>The refs as the component initialises them; no reference reaches the blank store.\<close>

definition initWorld :: "number \<Rightarrow> number \<Rightarrow> world" where
  "initWorld gameDuration startNow =
     \<lparr>heap = (\<lambda>r. blankTarget), nextRef = 0, targetsRef = [],
      statsRef = \<lparr>score = 0, hits = 0, misses = 0, accuracy = 0, avgReactionTime = 0,
                  bestStreak = 0\<rparr>,
      gameStateRef = \<lparr>lastSpawn = 0, startTime = startNow, currentStreak = 0,
                      reactionTimes = [], lastShotTime = 0, isPinchingPrevious = False,
                      cursorX = CANVAS_WIDTH / 2, cursorY = CANVAS_HEIGHT / 2\<rparr>,
      timeLeft = gameDuration, sounds = []\<rparr>"

text \<open>The audio calls of \<open>playSound\<close> are taken to return; the call itself is logged.\<close>

definition playSound :: "sound \<Rightarrow> world \<Rightarrow> world" where
  "playSound ty w = w\<lparr>sounds := sounds w @ [ty]\<rparr>"

definition spawnTarget :: "frame \<Rightarrow> world \<Rightarrow> world" where
  "spawnTarget f w =
     (let margin = TARGET_RADIUS_BASE * 2;
          newTarget = \<lparr>target_id = idNow f + idRandom f,
                       target_x = randomRange (xRandom f) margin (CANVAS_WIDTH - margin),
                       target_y = randomRange (yRandom f) margin (CANVAS_HEIGHT - margin),
                       radius = TARGET_RADIUS_BASE,
                       spawnTime = spawnNow f,
                       lifeTime = 3000,
                       isHit = False\<rparr>
      in w\<lparr>heap := (heap w)(nextRef w := newTarget),
           nextRef := Suc (nextRef w),
           targetsRef := targetsRef w @ [nextRef w]\<rparr>)"

subsection \<open>The simulation step \<open>update\<close>\<close>

text \<open>Step 1: the cursor is blended towards the raw position, and the pinch is latched.\<close>

definition didShoot :: "HandCursor \<Rightarrow> LoopState \<Rightarrow> bool" where
  "didShoot h st = (isPinching h \<and> \<not> isPinchingPrevious st)"

definition readCursor :: "HandCursor \<Rightarrow> world \<Rightarrow> world" where
  "readCursor h w =
     (let st = gameStateRef w;
          rawX = hand_x h * CANVAS_WIDTH;
          rawY = hand_y h * CANVAS_HEIGHT
      in w\<lparr>gameStateRef := st\<lparr>cursorX := cursorX st + (rawX - cursorX st) * 0.4,
                               cursorY := cursorY st + (rawY - cursorY st) * 0.4,
                               isPinchingPrevious := isPinching h\<rparr>\<rparr>)"

text \<open>Step 2: one target every 800 ms.\<close>

definition spawnGate :: "frame \<Rightarrow> world \<Rightarrow> world" where
  "spawnGate f w =
     (if now f - lastSpawn (gameStateRef w) > 800
      then (let w' = spawnTarget f w
            in w'\<lparr>gameStateRef := (gameStateRef w')\<lparr>lastSpawn := now f\<rparr>\<rparr>)
      else w)"

text \<open>Step 3: the targets a shot can hit, as references into the store.\<close>

definition isActive :: "number \<Rightarrow> Target \<Rightarrow> bool" where
  "isActive time t = (\<not> isHit t \<and> time - spawnTime t < lifeTime t)"

definition activeTargets :: "number \<Rightarrow> world \<Rightarrow> ref list" where
  "activeTargets time w = filter (\<lambda>r. isActive time (heap w r)) (targetsRef w)"

definition underCursor :: "world \<Rightarrow> ref \<Rightarrow> bool" where
  "underCursor w r =
     (distance (cursorX (gameStateRef w)) (cursorY (gameStateRef w))
               (target_x (heap w r)) (target_y (heap w r)) < radius (heap w r))"

text \<open>The body of the loop at a target under the cursor.\<close>

definition registerHit :: "number \<Rightarrow> ref \<Rightarrow> world \<Rightarrow> world" where
  "registerHit time r w =
     (let target = heap w r;
          st = gameStateRef w;
          stats = statsRef w;
          stats1 = stats\<lparr>score := score stats + (100 + currentStreak st * 10),
                         hits := hits stats + 1\<rparr>;
          streak = currentStreak st + 1;
          stats2 = (if streak > bestStreak stats1 then stats1\<lparr>bestStreak := streak\<rparr>
                    else stats1);
          st' = st\<lparr>currentStreak := streak,
                   reactionTimes := reactionTimes st @ [time - spawnTime target]\<rparr>
      in playSound SndHit
           (w\<lparr>heap := (heap w)(r := target\<lparr>isHit := True\<rparr>),
              statsRef := stats2,
              gameStateRef := st'\<rparr>))"

text \<open>
  The loop \<open>for (i = activeTargets.length - 1; i >= 0; i--)\<close>: it is given the active
  references last first, and returns the world with \<open>hitFound\<close>.
\<close>

fun shootLoop :: "number \<Rightarrow> ref list \<Rightarrow> world \<Rightarrow> world \<times> bool" where
  "shootLoop time [] w = (w, False)"
| "shootLoop time (r # rs) w =
     (if underCursor w r then (registerHit time r w, True)
      else shootLoop time rs w)"

definition registerMiss :: "world \<Rightarrow> world" where
  "registerMiss w =
     (let w' = playSound SndMiss w
      in w'\<lparr>statsRef := (statsRef w')\<lparr>misses := misses (statsRef w') + 1\<rparr>,
            gameStateRef := (gameStateRef w')\<lparr>currentStreak := 0\<rparr>\<rparr>)"

definition handleShot :: "number \<Rightarrow> world \<Rightarrow> world" where
  "handleShot time w =
     (case shootLoop time (rev (activeTargets time w)) w of
        (w', hitFound) \<Rightarrow> if \<not> hitFound then registerMiss w' else w')"

text \<open>Step 4: the filter that rebuilds \<open>targetsRef.current\<close>.\<close>

definition cleanupTargets :: "number \<Rightarrow> world \<Rightarrow> world" where
  "cleanupTargets time w =
     w\<lparr>targetsRef :=
         filter (\<lambda>r. let t = heap w r;
                         alive = (time - spawnTime t < lifeTime t) \<or> isHit t
                     in alive \<and> \<not> isHit t)
                (targetsRef w)\<rparr>"

text \<open>The world in which the hit test of a step runs: after steps 1 and 2.\<close>

definition beforeShot :: "frame \<Rightarrow> world \<Rightarrow> world" where
  "beforeShot f w = spawnGate f (readCursor (hand f) w)"

definition update :: "frame \<Rightarrow> world \<Rightarrow> world" where
  "update f w =
     (let time = now f;
          shot = didShoot (hand f) (gameStateRef w);
          w2 = beforeShot f w;
          w3 = (if shot then handleShot time w2 else w2)
      in cleanupTargets time w3)"

subsection \<open>The session clock \<open>tick\<close>\<close>

definition remaining :: "number \<Rightarrow> number \<Rightarrow> number \<Rightarrow> number" where
  "remaining gameDuration start time = max 0 (gameDuration - (time - start) / 1000)"

definition finalize :: "world \<Rightarrow> world" where
  "finalize w =
     (let stats = statsRef w;
          totalShots = hits stats + misses stats;
          acc = (if totalShots > 0 then (hits stats / totalShots) * 100 else 0);
          rts = reactionTimes (gameStateRef w);
          totalReaction = foldl (\<lambda>a b. a + b) 0 rts;
          avg = (if length rts > 0 then totalReaction / real (length rts) else 0)
      in w\<lparr>statsRef := stats\<lparr>accuracy := acc, avgReactionTime := avg\<rparr>\<rparr>)"

text \<open>
  One call of \<open>tick\<close>. The second component is \<open>Some stats\<close> when \<open>onGameOver(stats)\<close> was
  called and no further frame was requested, and \<open>None\<close> when
  \<open>requestAnimationFrame(tick)\<close> was. \<open>draw\<close> changes no state and is left out.
\<close>

definition tick :: "number \<Rightarrow> frame \<Rightarrow> world \<Rightarrow> world \<times> GameStats option" where
  "tick gameDuration f w =
     (let time = now f;
          rem = remaining gameDuration (startTime (gameStateRef w)) time;
          w0 = w\<lparr>timeLeft := rem\<rparr>
      in if rem \<le> 0
         then (let w' = finalize w0 in (w', Some (statsRef w')))
         else (update f w0, None))"

text \<open>
  The chain of animation frames: each \<open>tick\<close> either requests the next one or ends the
  chain. The list holds what the frames would read, in order; frames after the end of
  the chain never happen.
\<close>

fun session :: "number \<Rightarrow> frame list \<Rightarrow> world \<Rightarrow> world \<times> GameStats option" where
  "session gameDuration [] w = (w, None)"
| "session gameDuration (f # fs) w =
     (case tick gameDuration f w of
        (w', Some stats) \<Rightarrow> (w', Some stats)
      | (w', None) \<Rightarrow> session gameDuration fs w')"

subsection \<open>Observing a step and a run of steps\<close>

text \<open>
  The active targets that contain the smoothed cursor strictly within their radius, in
  the order of the target list (oldest first, since \<open>spawnTarget\<close> pushes at the end).
\<close>

definition qualifying :: "number \<Rightarrow> world \<Rightarrow> ref list" where
  "qualifying time w = filter (underCursor w) (activeTargets time w)"

text \<open>What the shot handling of a step does: nothing, a miss, or a hit on one target.\<close>

datatype shot = NoShot | Miss | Hit ref

definition shotOutcome :: "frame \<Rightarrow> world \<Rightarrow> shot" where
  "shotOutcome f w =
     (if \<not> didShoot (hand f) (gameStateRef w) then NoShot
      else if qualifying (now f) (beforeShot f w) = [] then Miss
      else Hit (last (qualifying (now f) (beforeShot f w))))"

fun isHitShot :: "shot \<Rightarrow> bool" where
  "isHitShot (Hit r) = True"
| "isHitShot s = False"

text \<open>Consecutive simulation steps, the worlds they pass through, and what they did.\<close>

fun run :: "frame list \<Rightarrow> world \<Rightarrow> world" where
  "run [] w = w"
| "run (f # fs) w = run fs (update f w)"

fun worlds :: "frame list \<Rightarrow> world \<Rightarrow> world list" where
  "worlds [] w = [w]"
| "worlds (f # fs) w = w # worlds fs (update f w)"

fun outcomes :: "frame list \<Rightarrow> world \<Rightarrow> shot list" where
  "outcomes [] w = []"
| "outcomes (f # fs) w = shotOutcome f w # outcomes fs (update f w)"

text \<open>
  References are handed out in increasing order and pushed at the end of the list, so
  in every world the session reaches the list is strictly increasing and below
  \<open>nextRef\<close>: a later position is a later spawn.
\<close>

definition wellFormed :: "world \<Rightarrow> bool" where
  "wellFormed w =
     (sorted_wrt (<) (targetsRef w) \<and> (\<forall>r \<in> set (targetsRef w). r < nextRef w))"

section \<open>The coach service (services/geminiService.ts)\<close>

datatype js_error = RequestFailed | SyntaxError

datatype json =
    JNull
  | JBool bool
  | JNum number
  | JStr string
  | JArr "json list"
  | JObj "(string \<times> json) list"

text \<open>
  What one call meets outside the function: the configured key, the result of
  \<open>ai.models.generateContent\<close> (an exception, or a response whose \<open>text\<close> may be
  undefined), and what \<open>JSON.parse\<close> does with that text.
\<close>

record coachEnv =
  apiKey :: string
  generateContent :: "js_error + string option"
  JSON_parse :: "js_error + json"

definition noKeyFallback :: json where
  "noKeyFallback = JObj
     [(''summary'', JStr ''Mission complete, soldier. No comms link to HQ (API Key missing).''),
      (''tips'', JArr [JStr ''Check your API configuration.'', JStr ''Practice makes perfect.'']),
      (''rank'', JStr ''Recruit'')]"

definition errorFallback :: json where
  "errorFallback = JObj
     [(''summary'', JStr ''Data corruption in transmission. Good shooting, regardless.''),
      (''tips'', JArr [JStr ''Keep your hand steady.'', JStr ''Focus on the center of the target.'']),
      (''rank'', JStr ''Unknown'')]"

definition tryCatch :: "(js_error + 'a) \<Rightarrow> (js_error \<Rightarrow> js_error + 'a) \<Rightarrow> js_error + 'a" where
  "tryCatch body handler = (case body of Inl e \<Rightarrow> handler e | Inr v \<Rightarrow> Inr v)"

text \<open>
  \<open>Inl\<close> is an exception leaving the function (a rejected promise). The prompt is
  built from the statistics with \<open>toFixed\<close> on numbers, which does not throw, and reaches
  only the request, whose result is part of the environment.
\<close>

definition getCoachFeedback :: "coachEnv \<Rightarrow> GameStats \<Rightarrow> js_error + json" where
  "getCoachFeedback env stats =
     (if apiKey env = [] then Inr noKeyFallback
      else tryCatch
             (case generateContent env of
                Inl e \<Rightarrow> Inl e
              | Inr text \<Rightarrow>
                  (if text = None \<or> text = Some [] then Inr JNull
                   else JSON_parse env))
             (\<lambda>error. Inr errorFallback))"

text \<open>A structured result: an object with the three fields the summary screen reads.\<close>

fun isStructured :: "json \<Rightarrow> bool" where
  "isStructured (JObj kvs) =
     (map_of kvs ''summary'' \<noteq> None \<and> map_of kvs ''tips'' \<noteq> None
      \<and> map_of kvs ''rank'' \<noteq> None)"
| "isStructured v = False"

section \<open>Example worlds and frames\<close>

definition demoHeap :: "ref \<Rightarrow> Target" where
  "demoHeap = (\<lambda>r. blankTarget)
     (0 := \<lparr>target_id = 1000, target_x = 640, target_y = 360, radius = 40,
            spawnTime = 1000, lifeTime = 3000, isHit = False\<rparr>,
      1 := \<lparr>target_id = 1900, target_x = 650, target_y = 360, radius = 40,
            spawnTime = 1900, lifeTime = 3000, isHit = False\<rparr>,
      2 := \<lparr>target_id = 2800, target_x = 200, target_y = 500, radius = 40,
            spawnTime = 2800, lifeTime = 3000, isHit = False\<rparr>)"

text \<open>Two overlapping targets under the cursor and a third one far away.\<close>

definition demoWorld :: world where
  "demoWorld =
     \<lparr>heap = demoHeap, nextRef = 3, targetsRef = [0, 1, 2],
      statsRef = \<lparr>score = 0, hits = 0, misses = 0, accuracy = 0, avgReactionTime = 0,
                  bestStreak = 0\<rparr>,
      gameStateRef = \<lparr>lastSpawn = 2800, startTime = 0, currentStreak = 0,
                      reactionTimes = [], lastShotTime = 0, isPinchingPrevious = False,
                      cursorX = 640, cursorY = 360\<rparr>,
      timeLeft = 27, sounds = []\<rparr>"

text \<open>The same world with the cursor elsewhere.\<close>

definition farWorld :: world where
  "farWorld = demoWorld\<lparr>gameStateRef := (gameStateRef demoWorld)\<lparr>cursorX := 200, cursorY := 200\<rparr>\<rparr>"

text \<open>One target whose centre is exactly 40 away from the cursor.\<close>

definition boundaryWorld :: world where
  "boundaryWorld = demoWorld\<lparr>targetsRef := [0],
     gameStateRef := (gameStateRef demoWorld)\<lparr>cursorX := 600, cursorY := 360\<rparr>\<rparr>"

definition pinchFrame :: frame where
  "pinchFrame =
     \<lparr>now = 3000, hand = \<lparr>hand_x = 0.5, hand_y = 0.5, isPinching = True\<rparr>,
      idNow = 3000, idRandom = 0.25, xRandom = 0.5, yRandom = 0.5, spawnNow = 3000\<rparr>"

definition releaseFrame :: frame where
  "releaseFrame =
     \<lparr>now = 3016, hand = \<lparr>hand_x = 0.5, hand_y = 0.5, isPinching = False\<rparr>,
      idNow = 3016, idRandom = 0.25, xRandom = 0.5, yRandom = 0.5, spawnNow = 3016\<rparr>"

definition repinchFrame :: frame where
  "repinchFrame = pinchFrame\<lparr>now := 3032\<rparr>"

definition boundaryFrame :: frame where
  "boundaryFrame = pinchFrame\<lparr>hand := \<lparr>hand_x = 0.46875, hand_y = 0.5, isPinching = True\<rparr>\<rparr>"

definition lateFrame :: frame where
  "lateFrame = pinchFrame\<lparr>now := 4900, idNow := 4900, spawnNow := 4901\<rparr>"

definition endFrame :: frame where
  "endFrame = releaseFrame\<lparr>now := 30000\<rparr>"

section \<open>Properties of the simulation step\<close>

subsection \<open>The hit loop as a search\<close>

lemma find_snoc:
  "find P (xs @ [x]) = (case find P xs of None \<Rightarrow> (if P x then Some x else None) | Some y \<Rightarrow> Some y)"
  by (induction xs) auto

lemma find_rev_filter:
  "find P (rev xs) = (if filter P xs = [] then None else Some (last (filter P xs)))"
  by (induction xs rule: rev_induct) auto

lemma shootLoop_find:
  "shootLoop time rs w =
     (case find (underCursor w) rs of None \<Rightarrow> (w, False)
      | Some r \<Rightarrow> (registerHit time r w, True))"
  by (induction rs) auto

lemma handleShot_miss:
  "qualifying time w = [] \<Longrightarrow> handleShot time w = registerMiss w"
  by (simp add: handleShot_def shootLoop_find find_rev_filter qualifying_def)

lemma handleShot_hit:
  "qualifying time w \<noteq> [] \<Longrightarrow>
   handleShot time w = registerHit time (last (qualifying time w)) w"
  by (simp add: handleShot_def shootLoop_find find_rev_filter qualifying_def)

subsection \<open>Fields after each phase\<close>

lemma statsRef_beforeShot [simp]: "statsRef (beforeShot f w) = statsRef w"
  by (simp add: beforeShot_def spawnGate_def spawnTarget_def readCursor_def Let_def)

lemma statsRef_cleanupTargets [simp]: "statsRef (cleanupTargets time w) = statsRef w"
  by (simp add: cleanupTargets_def)

lemma gameStateRef_cleanupTargets [simp]:
  "gameStateRef (cleanupTargets time w) = gameStateRef w"
  by (simp add: cleanupTargets_def)

lemma heap_cleanupTargets [simp]: "heap (cleanupTargets time w) = heap w"
  by (simp add: cleanupTargets_def)

lemma sounds_cleanupTargets [simp]: "sounds (cleanupTargets time w) = sounds w"
  by (simp add: cleanupTargets_def)

lemma currentStreak_beforeShot [simp]:
  "currentStreak (gameStateRef (beforeShot f w)) = currentStreak (gameStateRef w)"
  by (simp add: beforeShot_def spawnGate_def spawnTarget_def readCursor_def Let_def)

lemma reactionTimes_beforeShot [simp]:
  "reactionTimes (gameStateRef (beforeShot f w)) = reactionTimes (gameStateRef w)"
  by (simp add: beforeShot_def spawnGate_def spawnTarget_def readCursor_def Let_def)

lemma startTime_beforeShot [simp]:
  "startTime (gameStateRef (beforeShot f w)) = startTime (gameStateRef w)"
  by (simp add: beforeShot_def spawnGate_def spawnTarget_def readCursor_def Let_def)

lemma isPinchingPrevious_beforeShot [simp]:
  "isPinchingPrevious (gameStateRef (beforeShot f w)) = isPinching (hand f)"
  by (simp add: beforeShot_def spawnGate_def spawnTarget_def readCursor_def Let_def)

lemma sounds_beforeShot [simp]: "sounds (beforeShot f w) = sounds w"
  by (simp add: beforeShot_def spawnGate_def spawnTarget_def readCursor_def Let_def)

lemma statsRef_registerMiss:
  "statsRef (registerMiss w) = (statsRef w)\<lparr>misses := misses (statsRef w) + 1\<rparr>"
  by (simp add: registerMiss_def playSound_def Let_def)

lemma gameStateRef_registerMiss:
  "gameStateRef (registerMiss w) = (gameStateRef w)\<lparr>currentStreak := 0\<rparr>"
  by (simp add: registerMiss_def playSound_def Let_def)

subsection \<open>The three ways a step can go\<close>

lemma update_no_shot:
  "\<not> didShoot (hand f) (gameStateRef w) \<Longrightarrow>
   update f w = cleanupTargets (now f) (beforeShot f w)"
  by (simp add: update_def Let_def)

lemma update_miss:
  "didShoot (hand f) (gameStateRef w) \<Longrightarrow> qualifying (now f) (beforeShot f w) = [] \<Longrightarrow>
   update f w = cleanupTargets (now f) (registerMiss (beforeShot f w))"
  by (simp add: update_def Let_def handleShot_miss)

lemma update_hit:
  "didShoot (hand f) (gameStateRef w) \<Longrightarrow> qualifying (now f) (beforeShot f w) \<noteq> [] \<Longrightarrow>
   update f w = cleanupTargets (now f)
     (registerHit (now f) (last (qualifying (now f) (beforeShot f w))) (beforeShot f w))"
  by (simp add: update_def Let_def handleShot_hit)

subsection \<open>The distance against a radius, without the square root\<close>

lemma distance_less_iff:
  "distance a b c d < r \<longleftrightarrow> 0 < r \<and> (c - a)\<^sup>2 + (d - b)\<^sup>2 < r\<^sup>2"
proof (cases "0 < r")
  case True
  then have "sqrt (r\<^sup>2) = r" by simp
  then have "distance a b c d < r \<longleftrightarrow> sqrt ((c - a)\<^sup>2 + (d - b)\<^sup>2) < sqrt (r\<^sup>2)"
    by (simp add: distance_def)
  then show ?thesis using True by (simp only: real_sqrt_less_iff) simp
next
  case False
  have "0 \<le> distance a b c d" by (simp add: distance_def)
  with False show ?thesis by simp
qed

lemma distance_eq_iff:
  "distance a b c d = r \<longleftrightarrow> 0 \<le> r \<and> (c - a)\<^sup>2 + (d - b)\<^sup>2 = r\<^sup>2"
proof (cases "0 \<le> r")
  case True
  then have "sqrt (r\<^sup>2) = r" by simp
  then have "distance a b c d = r \<longleftrightarrow> sqrt ((c - a)\<^sup>2 + (d - b)\<^sup>2) = sqrt (r\<^sup>2)"
    by (simp add: distance_def)
  then show ?thesis using True by (simp only: real_sqrt_eq_iff) simp
next
  case False
  have "0 \<le> distance a b c d" by (simp add: distance_def)
  with False show ?thesis by auto
qed

subsection \<open>Unfolding the examples\<close>

lemmas demo_defs = demoWorld_def demoHeap_def pinchFrame_def releaseFrame_def repinchFrame_def
  farWorld_def boundaryWorld_def boundaryFrame_def lateFrame_def endFrame_def blankTarget_def

lemmas step_defs = beforeShot_def spawnGate_def spawnTarget_def readCursor_def qualifying_def
  activeTargets_def underCursor_def isActive_def didShoot_def distance_less_iff
  CANVAS_WIDTH_def CANVAS_HEIGHT_def TARGET_RADIUS_BASE_def randomRange_def Let_def

lemmas update_eval = update_def handleShot_def cleanupTargets_def registerHit_def
  registerMiss_def playSound_def

lemmas world_eval = demo_defs step_defs update_eval shotOutcome_def

subsection \<open>Fields after a hit, a miss and the cleanup\<close>

lemma heap_registerHit:
  "heap (registerHit time r w) = (heap w)(r := (heap w r)\<lparr>isHit := True\<rparr>)"
  by (simp add: registerHit_def playSound_def Let_def)

lemma targetsRef_registerHit [simp]: "targetsRef (registerHit time r w) = targetsRef w"
  by (simp add: registerHit_def playSound_def Let_def)

lemma statsRef_registerHit:
  "statsRef (registerHit time r w) =
     (statsRef w)\<lparr>score := score (statsRef w) + (100 + currentStreak (gameStateRef w) * 10),
                   hits := hits (statsRef w) + 1,
                   bestStreak := max (bestStreak (statsRef w)) (currentStreak (gameStateRef w) + 1)\<rparr>"
  by (simp add: registerHit_def playSound_def Let_def max_def)

lemma gameStateRef_registerHit:
  "gameStateRef (registerHit time r w) =
     (gameStateRef w)\<lparr>currentStreak := currentStreak (gameStateRef w) + 1,
        reactionTimes := reactionTimes (gameStateRef w) @ [time - spawnTime (heap w r)]\<rparr>"
  by (simp add: registerHit_def playSound_def Let_def)

lemma sounds_registerHit [simp]: "sounds (registerHit time r w) = sounds w @ [SndHit]"
  by (simp add: registerHit_def playSound_def Let_def)

lemma heap_registerMiss [simp]: "heap (registerMiss w) = heap w"
  by (simp add: registerMiss_def playSound_def Let_def)

lemma targetsRef_registerMiss [simp]: "targetsRef (registerMiss w) = targetsRef w"
  by (simp add: registerMiss_def playSound_def Let_def)

lemma sounds_registerMiss [simp]: "sounds (registerMiss w) = sounds w @ [SndMiss]"
  by (simp add: registerMiss_def playSound_def Let_def)

lemma targetsRef_cleanupTargets:
  "targetsRef (cleanupTargets time w) =
     filter (\<lambda>r. time - spawnTime (heap w r) < lifeTime (heap w r) \<and> \<not> isHit (heap w r))
            (targetsRef w)"
  by (simp add: cleanupTargets_def Let_def) (metis (no_types, lifting))

subsection \<open>The qualifying targets\<close>

lemma qualifying_member:
  "r \<in> set (qualifying time w) \<longleftrightarrow>
     r \<in> set (targetsRef w) \<and> isActive time (heap w r) \<and> underCursor w r"
  by (auto simp: qualifying_def activeTargets_def)

lemma last_filter_split:
  "filter P xs \<noteq> [] \<Longrightarrow> \<exists>as bs. xs = as @ last (filter P xs) # bs \<and> filter P bs = []"
proof (induction xs rule: rev_induct)
  case Nil
  then show ?case by simp
next
  case (snoc x xs)
  show ?case
  proof (cases "P x")
    case True
    then have "xs @ [x] = xs @ last (filter P (xs @ [x])) # [] \<and> filter P [] = []" by simp
    then show ?thesis by blast
  next
    case False
    with snoc.prems have "filter P xs \<noteq> []" by simp
    from snoc.IH [OF this] obtain as bs
      where "xs = as @ last (filter P xs) # bs" and "filter P bs = []" by blast
    with False have "xs @ [x] = as @ last (filter P (xs @ [x])) # (bs @ [x])
        \<and> filter P (bs @ [x]) = []" by simp
    then show ?thesis by blast
  qed
qed

lemma sorted_last_Max:
  "sorted_wrt (<) (xs :: nat list) \<Longrightarrow> xs \<noteq> [] \<Longrightarrow> Max (set xs) = last xs"
proof (induction xs rule: rev_induct)
  case Nil
  then show ?case by simp
next
  case (snoc x xs)
  then have "\<forall>y \<in> set xs. y < x" by (simp add: sorted_wrt_append)
  then have "\<forall>y \<in> set (xs @ [x]). y \<le> x" by auto
  then show ?case by (intro Max_eqI) auto
qed

lemma targetsRef_beforeShot:
  "targetsRef (beforeShot f w) =
     targetsRef w @ (if now f - lastSpawn (gameStateRef w) > 800 then [nextRef w] else [])"
  by (simp add: beforeShot_def spawnGate_def spawnTarget_def readCursor_def Let_def)

lemma heap_beforeShot_old:
  "r \<noteq> nextRef w \<Longrightarrow> heap (beforeShot f w) r = heap w r"
  by (simp add: beforeShot_def spawnGate_def spawnTarget_def readCursor_def Let_def)

lemma nextRef_beforeShot:
  "nextRef (beforeShot f w) =
     (if now f - lastSpawn (gameStateRef w) > 800 then Suc (nextRef w) else nextRef w)"
  by (simp add: beforeShot_def spawnGate_def spawnTarget_def readCursor_def Let_def)

lemma wellFormed_beforeShot: "wellFormed w \<Longrightarrow> wellFormed (beforeShot f w)"
  by (auto simp: wellFormed_def targetsRef_beforeShot nextRef_beforeShot sorted_wrt_append
      less_Suc_eq)

text \<open>
  Claim C4. In a step where a shoot event fires and no active target contains the
  smoothed cursor strictly within its radius, \<open>misses\<close> grows by exactly 1,
  \<open>currentStreak\<close> becomes 0 and \<open>score\<close> is unchanged.
\<close>

theorem miss_registers:
  assumes "didShoot (hand f) (gameStateRef w)"
      and "qualifying (now f) (beforeShot f w) = []"
  shows "misses (statsRef (update f w)) = misses (statsRef w) + 1
       \<and> currentStreak (gameStateRef (update f w)) = 0
       \<and> score (statsRef (update f w)) = score (statsRef w)"
  using assms by (simp add: update_miss statsRef_registerMiss gameStateRef_registerMiss)

theorem miss_registers_witness:
  "didShoot (hand pinchFrame) (gameStateRef farWorld)
   \<and> qualifying (now pinchFrame) (beforeShot pinchFrame farWorld) = []
   \<and> misses (statsRef (update pinchFrame farWorld)) = 1
   \<and> currentStreak (gameStateRef (update pinchFrame farWorld)) = 0
   \<and> score (statsRef (update pinchFrame farWorld)) = 0"
proof -
  have d: "didShoot (hand pinchFrame) (gameStateRef farWorld)"
    by (simp add: demo_defs didShoot_def)
  have q: "qualifying (now pinchFrame) (beforeShot pinchFrame farWorld) = []"
    by (simp add: demo_defs step_defs)
  have "misses (statsRef farWorld) = 0" "score (statsRef farWorld) = 0"
    by (simp_all add: demo_defs)
  with d q miss_registers [OF d q] show ?thesis by simp
qed

text \<open>
  Claim C1. In a step where a shoot event fires and some active target contains the
  smoothed cursor strictly within its radius, exactly one target goes from not hit to
  hit: the last qualifying one of the target list, after which the list holds no
  qualifying target, and which is the most recently allocated of them. One hit is
  counted.
\<close>

theorem shot_hits_most_recent:
  assumes shot: "didShoot (hand f) (gameStateRef w)"
      and some: "qualifying (now f) (beforeShot f w) \<noteq> []"
      and wf: "wellFormed w"
  shows "let w2 = beforeShot f w; Q = qualifying (now f) w2; r = last Q; w' = update f w in
           r \<in> set (targetsRef w2) \<and> isActive (now f) (heap w2 r) \<and> underCursor w2 r
         \<and> heap w' = (heap w2)(r := (heap w2 r)\<lparr>isHit := True\<rparr>)
         \<and> {q. isHit (heap w' q) \<noteq> isHit (heap w2 q)} = {r}
         \<and> hits (statsRef w') = hits (statsRef w) + 1
         \<and> (\<exists>older newer. targetsRef w2 = older @ r # newer \<and> qualifying (now f) (w2\<lparr>targetsRef := newer\<rparr>) = [])
         \<and> Max (set Q) = r"
proof -
  define w2 where "w2 = beforeShot f w"
  define Q where "Q = qualifying (now f) w2"
  define r where "r = last Q"
  have Qne: "Q \<noteq> []" using some by (simp add: Q_def w2_def)
  then have rQ: "r \<in> set Q" by (simp add: r_def)
  then have mem: "r \<in> set (targetsRef w2)" "isActive (now f) (heap w2 r)" "underCursor w2 r"
    by (simp_all add: Q_def qualifying_member)
  have upd: "update f w = cleanupTargets (now f) (registerHit (now f) r w2)"
    using update_hit [OF shot some] by (simp add: r_def Q_def w2_def)
  then have hp: "heap (update f w) = (heap w2)(r := (heap w2 r)\<lparr>isHit := True\<rparr>)"
    by (simp add: heap_registerHit)
  from mem(2) have nh: "\<not> isHit (heap w2 r)" by (simp add: isActive_def)
  have only: "{q. isHit (heap (update f w) q) \<noteq> isHit (heap w2 q)} = {r}"
    using nh by (auto simp: hp)
  have hits: "hits (statsRef (update f w)) = hits (statsRef w) + 1"
    by (simp add: upd statsRef_registerHit w2_def)
  have "filter (underCursor w2) (activeTargets (now f) w2) \<noteq> []"
    using Qne by (simp add: Q_def qualifying_def)
  then have "filter (\<lambda>q. isActive (now f) (heap w2 q) \<and> underCursor w2 q) (targetsRef w2) \<noteq> []"
    by (simp add: activeTargets_def conj_commute)
  from last_filter_split [OF this]
  obtain older newer where
    sp: "targetsRef w2 = older @ last (filter (\<lambda>q. isActive (now f) (heap w2 q) \<and> underCursor w2 q) (targetsRef w2)) # newer"
    and em: "filter (\<lambda>q. isActive (now f) (heap w2 q) \<and> underCursor w2 q) newer = []"
    by blast
  have Qalt: "Q = filter (\<lambda>q. isActive (now f) (heap w2 q) \<and> underCursor w2 q) (targetsRef w2)"
    by (simp add: Q_def qualifying_def activeTargets_def conj_commute)
  have sp': "targetsRef w2 = older @ r # newer" using sp by (simp add: r_def Qalt)
  have "underCursor (w2\<lparr>targetsRef := newer\<rparr>) = underCursor w2"
    by (rule ext) (simp add: underCursor_def)
  then have em': "qualifying (now f) (w2\<lparr>targetsRef := newer\<rparr>) = []"
    using em by (simp add: qualifying_def activeTargets_def conj_commute)
  have "wellFormed w2" using wf by (simp add: w2_def wellFormed_beforeShot)
  then have "sorted_wrt (<) Q"
    by (simp add: Qalt wellFormed_def sorted_wrt_filter)
  then have mx: "Max (set Q) = r" using Qne by (simp add: sorted_last_Max r_def)
  from mem hp only hits sp' em' mx show ?thesis
    unfolding Let_def w2_def [symmetric] Q_def [symmetric] r_def [symmetric] by blast
qed

theorem shot_hits_most_recent_witness:
  "didShoot (hand pinchFrame) (gameStateRef demoWorld)
   \<and> qualifying (now pinchFrame) (beforeShot pinchFrame demoWorld) = [0, 1]
   \<and> wellFormed demoWorld
   \<and> isHit (heap (update pinchFrame demoWorld) 1)
   \<and> \<not> isHit (heap (update pinchFrame demoWorld) 0)
   \<and> hits (statsRef (update pinchFrame demoWorld)) = 1"
proof -
  have d: "didShoot (hand pinchFrame) (gameStateRef demoWorld)"
    by (simp add: demo_defs didShoot_def)
  have q: "qualifying (now pinchFrame) (beforeShot pinchFrame demoWorld) = [0, 1]"
    by (simp add: demo_defs step_defs)
  then have q': "qualifying (now pinchFrame) (beforeShot pinchFrame demoWorld) \<noteq> []" by simp
  have wf: "wellFormed demoWorld" by (simp add: demo_defs wellFormed_def)
  have h0: "\<not> isHit (heap (beforeShot pinchFrame demoWorld) 0)"
    by (simp add: demo_defs step_defs)
  have "hits (statsRef demoWorld) = 0" by (simp add: demo_defs)
  with shot_hits_most_recent [OF d q' wf] d q wf h0 show ?thesis
    by (simp add: Let_def)
qed

subsection \<open>The step does not look at targets outside the active ones\<close>

lemma underCursor_targetsRef [simp]: "underCursor (w\<lparr>targetsRef := L\<rparr>) = underCursor w"
  by (rule ext) (simp add: underCursor_def)

lemma registerHit_targetsRef:
  "registerHit time r (w\<lparr>targetsRef := L\<rparr>) = (registerHit time r w)\<lparr>targetsRef := L\<rparr>"
  by (simp add: registerHit_def playSound_def Let_def)

lemma registerMiss_targetsRef:
  "registerMiss (w\<lparr>targetsRef := L\<rparr>) = (registerMiss w)\<lparr>targetsRef := L\<rparr>"
  by (simp add: registerMiss_def playSound_def Let_def)

lemma handleShot_targetsRef:
  assumes "activeTargets time (w\<lparr>targetsRef := L\<rparr>) = activeTargets time w"
  shows "handleShot time (w\<lparr>targetsRef := L\<rparr>) = (handleShot time w)\<lparr>targetsRef := L\<rparr>"
  using assms
  by (simp add: handleShot_def shootLoop_find registerHit_targetsRef registerMiss_targetsRef
      split: option.splits)

lemma beforeShot_targetsRef:
  "beforeShot f (w\<lparr>targetsRef := L\<rparr>) =
     (beforeShot f w)\<lparr>targetsRef :=
        L @ (if now f - lastSpawn (gameStateRef w) > 800 then [nextRef w] else [])\<rparr>"
  by (simp add: beforeShot_def spawnGate_def spawnTarget_def readCursor_def Let_def)

lemma cleanupTargets_targetsRef:
  "cleanupTargets time (w\<lparr>targetsRef := L\<rparr>) =
     w\<lparr>targetsRef := filter (\<lambda>r. time - spawnTime (heap w r) < lifeTime (heap w r)
                                  \<and> \<not> isHit (heap w r)) L\<rparr>"
proof -
  have "(\<lambda>r. (time - spawnTime (heap w r) < lifeTime (heap w r) \<or> isHit (heap w r))
              \<and> \<not> isHit (heap w r))
        = (\<lambda>r. time - spawnTime (heap w r) < lifeTime (heap w r) \<and> \<not> isHit (heap w r))"
    by auto
  then show ?thesis by (simp add: cleanupTargets_def Let_def)
qed

lemma cleanupTargets_alt:
  "cleanupTargets time w =
     w\<lparr>targetsRef := filter (\<lambda>r. time - spawnTime (heap w r) < lifeTime (heap w r)
                                  \<and> \<not> isHit (heap w r)) (targetsRef w)\<rparr>"
  using cleanupTargets_targetsRef [where L = "targetsRef w" and w = w] by simp

lemma targetsRef_handleShot [simp]: "targetsRef (handleShot time w) = targetsRef w"
  by (simp add: handleShot_def shootLoop_find split: option.splits)

lemma heap_handleShot_times:
  "spawnTime (heap (handleShot time w) r) = spawnTime (heap w r)
   \<and> lifeTime (heap (handleShot time w) r) = lifeTime (heap w r)"
  by (simp add: handleShot_def shootLoop_find heap_registerHit split: option.splits)

subsection \<open>The step by its outcome\<close>

lemma shotOutcome_cases:
  "update f w = cleanupTargets (now f)
     (case shotOutcome f w of
        NoShot \<Rightarrow> beforeShot f w
      | Miss \<Rightarrow> registerMiss (beforeShot f w)
      | Hit r \<Rightarrow> registerHit (now f) r (beforeShot f w))"
  by (simp add: shotOutcome_def update_no_shot update_miss update_hit)

lemma shotOutcome_Hit_D:
  "shotOutcome f w = Hit r \<Longrightarrow> r \<in> set (qualifying (now f) (beforeShot f w))"
  by (auto simp: shotOutcome_def split: if_splits)

text \<open>
  Claim C6. A target whose centre lies at distance exactly equal to its radius from the
  smoothed cursor is not hit by the step: the test is the strict \<open>dist < radius\<close>. When
  it is the only target of the list, the shot is a miss.
\<close>

theorem boundary_is_not_a_hit:
  assumes "distance (cursorX (gameStateRef (beforeShot f w)))
                    (cursorY (gameStateRef (beforeShot f w)))
                    (target_x (heap (beforeShot f w) r))
                    (target_y (heap (beforeShot f w) r))
           = radius (heap (beforeShot f w) r)"
  shows "shotOutcome f w \<noteq> Hit r
       \<and> isHit (heap (update f w) r) = isHit (heap (beforeShot f w) r)
       \<and> (didShoot (hand f) (gameStateRef w) \<and> targetsRef (beforeShot f w) = [r]
            \<longrightarrow> shotOutcome f w = Miss
              \<and> misses (statsRef (update f w)) = misses (statsRef w) + 1)"
proof -
  from assms have nu: "\<not> underCursor (beforeShot f w) r"
    by (simp add: underCursor_def)
  then have nq: "r \<notin> set (qualifying (now f) (beforeShot f w))"
    by (simp add: qualifying_member)
  then have a: "shotOutcome f w \<noteq> Hit r"
    using shotOutcome_Hit_D by blast
  have b: "isHit (heap (update f w) r) = isHit (heap (beforeShot f w) r)"
    using a by (cases "shotOutcome f w") (auto simp: shotOutcome_cases heap_registerHit)
  have c: "shotOutcome f w = Miss \<and> misses (statsRef (update f w)) = misses (statsRef w) + 1"
    if "didShoot (hand f) (gameStateRef w)" "targetsRef (beforeShot f w) = [r]"
  proof -
    have "qualifying (now f) (beforeShot f w) = []"
      using nu that(2) by (simp add: qualifying_def activeTargets_def)
    then show ?thesis using that(1)
      by (simp add: shotOutcome_def update_miss statsRef_registerMiss)
  qed
  from a b c show ?thesis by blast
qed

theorem boundary_is_not_a_hit_witness:
  "distance (cursorX (gameStateRef (beforeShot boundaryFrame boundaryWorld)))
            (cursorY (gameStateRef (beforeShot boundaryFrame boundaryWorld)))
            (target_x (heap (beforeShot boundaryFrame boundaryWorld) 0))
            (target_y (heap (beforeShot boundaryFrame boundaryWorld) 0))
     = radius (heap (beforeShot boundaryFrame boundaryWorld) 0)
   \<and> didShoot (hand boundaryFrame) (gameStateRef boundaryWorld)
   \<and> targetsRef (beforeShot boundaryFrame boundaryWorld) = [0]
   \<and> shotOutcome boundaryFrame boundaryWorld = Miss
   \<and> \<not> isHit (heap (update boundaryFrame boundaryWorld) 0)
   \<and> misses (statsRef (update boundaryFrame boundaryWorld)) = 1"
proof -
  have d: "distance (cursorX (gameStateRef (beforeShot boundaryFrame boundaryWorld)))
            (cursorY (gameStateRef (beforeShot boundaryFrame boundaryWorld)))
            (target_x (heap (beforeShot boundaryFrame boundaryWorld) 0))
            (target_y (heap (beforeShot boundaryFrame boundaryWorld) 0))
     = radius (heap (beforeShot boundaryFrame boundaryWorld) 0)"
    by (simp add: demo_defs step_defs distance_eq_iff)
  have s: "didShoot (hand boundaryFrame) (gameStateRef boundaryWorld)"
    by (simp add: demo_defs didShoot_def)
  have t: "targetsRef (beforeShot boundaryFrame boundaryWorld) = [0]"
    by (simp add: demo_defs step_defs)
  have h: "\<not> isHit (heap (beforeShot boundaryFrame boundaryWorld) 0)"
    by (simp add: demo_defs step_defs)
  have m: "misses (statsRef boundaryWorld) = 0" by (simp add: demo_defs)
  from boundary_is_not_a_hit [OF d] d s t h m show ?thesis by simp
qed

text \<open>
  Claim C7. A target of the list that was never hit and has \<open>now - spawnTime \<ge> lifeTime\<close>
  is not among the targets the hit test scans, is not hit, is gone from the list after
  the step, and has no effect at all: the step yields the same world (statistics, streak,
  reaction times and everything else) as it does when that target is taken out of the
  list beforehand.
\<close>

theorem expired_target_is_silent:
  assumes wf: "wellFormed w"
      and list: "targetsRef w = older @ r # newer"
      and unhit: "\<not> isHit (heap w r)"
      and expired: "now f - spawnTime (heap w r) \<ge> lifeTime (heap w r)"
  shows "r \<notin> set (activeTargets (now f) (beforeShot f w))
       \<and> shotOutcome f w \<noteq> Hit r
       \<and> \<not> isHit (heap (update f w) r)
       \<and> r \<notin> set (targetsRef (update f w))
       \<and> update f (w\<lparr>targetsRef := older @ newer\<rparr>) = update f w"
proof -
  define w2 where "w2 = beforeShot f w"
  define S where "S = (if now f - lastSpawn (gameStateRef w) > 800 then [nextRef w] else [])"
  define keep where
    "keep w3 q \<longleftrightarrow> now f - spawnTime (heap w3 q) < lifeTime (heap w3 q) \<and> \<not> isHit (heap w3 q)"
    for w3 q
  have "r \<in> set (targetsRef w)" using list by simp
  with wf have "r < nextRef w" by (simp add: wellFormed_def)
  then have hr: "heap w2 r = heap w r" by (simp add: w2_def heap_beforeShot_old)
  with expired have inact: "\<not> isActive (now f) (heap w2 r)" by (simp add: isActive_def)
  then have a: "r \<notin> set (activeTargets (now f) w2)" by (simp add: activeTargets_def)
  then have nq: "r \<notin> set (qualifying (now f) w2)" by (simp add: qualifying_def)
  then have b: "shotOutcome f w \<noteq> Hit r" using shotOutcome_Hit_D w2_def by blast
  have c: "\<not> isHit (heap (update f w) r)"
    using b unhit hr
    by (cases "shotOutcome f w") (auto simp: shotOutcome_cases heap_registerHit w2_def)
  have tw2: "targetsRef w2 = older @ r # newer @ S"
    by (simp add: w2_def targetsRef_beforeShot list S_def)
  have w2': "beforeShot f (w\<lparr>targetsRef := older @ newer\<rparr>) = w2\<lparr>targetsRef := older @ newer @ S\<rparr>"
    by (simp add: beforeShot_targetsRef w2_def S_def)
  have act: "activeTargets (now f) (w2\<lparr>targetsRef := older @ newer @ S\<rparr>) = activeTargets (now f) w2"
    using inact by (simp add: activeTargets_def tw2)
  define w3 where "w3 = (if didShoot (hand f) (gameStateRef w) then handleShot (now f) w2 else w2)"
  have u1: "update f w = cleanupTargets (now f) w3"
    by (simp add: update_def Let_def w3_def w2_def)
  have u2: "update f (w\<lparr>targetsRef := older @ newer\<rparr>)
            = cleanupTargets (now f) (w3\<lparr>targetsRef := older @ newer @ S\<rparr>)"
    by (simp add: update_def Let_def w2' w3_def handleShot_targetsRef [OF act])
  have t3: "targetsRef w3 = older @ r # newer @ S" by (simp add: w3_def tw2)
  have "spawnTime (heap w3 r) = spawnTime (heap w r) \<and> lifeTime (heap w3 r) = lifeTime (heap w r)"
    by (simp add: w3_def heap_handleShot_times hr)
  with expired have nk: "\<not> (now f - spawnTime (heap w3 r) < lifeTime (heap w3 r) \<and> \<not> isHit (heap w3 r))"
    by simp
  have d: "r \<notin> set (targetsRef (update f w))"
    using nk by (simp add: u1 targetsRef_cleanupTargets)
  have e: "update f (w\<lparr>targetsRef := older @ newer\<rparr>) = update f w"
    using nk by (simp add: u1 u2 cleanupTargets_targetsRef cleanupTargets_alt [where w = w3] t3)
  from a b c d e show ?thesis by (simp add: w2_def)
qed

theorem expired_target_is_silent_witness:
  "wellFormed demoWorld \<and> targetsRef demoWorld = [0] @ 1 # [2]
   \<and> \<not> isHit (heap demoWorld 1)
   \<and> now lateFrame - spawnTime (heap demoWorld 1) \<ge> lifeTime (heap demoWorld 1)
   \<and> update lateFrame (demoWorld\<lparr>targetsRef := [0, 2]\<rparr>) = update lateFrame demoWorld
   \<and> 1 \<notin> set (targetsRef (update lateFrame demoWorld))"
proof -
  have wf: "wellFormed demoWorld" by (simp add: demo_defs wellFormed_def)
  have l: "targetsRef demoWorld = [0] @ 1 # [2]" by (simp add: demo_defs)
  have h: "\<not> isHit (heap demoWorld 1)" by (simp add: demo_defs)
  have e: "now lateFrame - spawnTime (heap demoWorld 1) \<ge> lifeTime (heap demoWorld 1)"
    by (simp add: demo_defs)
  from expired_target_is_silent [OF wf l h e] wf l h e show ?thesis by simp
qed

text \<open>
  Claim C8, amended. A target that a step hits is in the list when the hit test runs and
  is gone from the list when that same step ends, its object marked \<open>isHit\<close>; it is not
  kept for a further frame.
\<close>

theorem hit_target_removed_in_same_step:
  assumes "shotOutcome f w = Hit r"
  shows "r \<in> set (targetsRef (beforeShot f w))
       \<and> \<not> isHit (heap (beforeShot f w) r)
       \<and> isHit (heap (update f w) r)
       \<and> r \<notin> set (targetsRef (update f w))"
proof -
  from assms have "r \<in> set (qualifying (now f) (beforeShot f w))"
    by (rule shotOutcome_Hit_D)
  then have "r \<in> set (targetsRef (beforeShot f w))" "\<not> isHit (heap (beforeShot f w) r)"
    by (simp_all add: qualifying_member isActive_def)
  moreover have "update f w = cleanupTargets (now f) (registerHit (now f) r (beforeShot f w))"
    using assms by (simp add: shotOutcome_cases)
  then have "isHit (heap (update f w) r)" "r \<notin> set (targetsRef (update f w))"
    by (simp_all add: heap_registerHit targetsRef_cleanupTargets)
  ultimately show ?thesis by simp
qed

theorem hit_target_removed_in_same_step_witness:
  "shotOutcome pinchFrame demoWorld = Hit 1
   \<and> isHit (heap (update pinchFrame demoWorld) 1)
   \<and> 1 \<notin> set (targetsRef (update pinchFrame demoWorld))"
proof -
  have "qualifying (now pinchFrame) (beforeShot pinchFrame demoWorld) = [0, 1]"
    by (simp add: demo_defs step_defs)
  moreover have "didShoot (hand pinchFrame) (gameStateRef demoWorld)"
    by (simp add: demo_defs didShoot_def)
  ultimately have o: "shotOutcome pinchFrame demoWorld = Hit 1"
    by (simp add: shotOutcome_def)
  from hit_target_removed_in_same_step [OF o] o show ?thesis by simp
qed

text \<open>
  Claim C8 as stated fails: here target 1 is in the list and not hit, the step hits it,
  and at the end of that step it is no longer in the list.
\<close>

theorem hit_target_kept_one_frame_counterexample:
  "1 \<in> set (targetsRef demoWorld) \<and> \<not> isHit (heap demoWorld 1)
   \<and> isHit (heap (update pinchFrame demoWorld) 1)
   \<and> 1 \<notin> set (targetsRef (update pinchFrame demoWorld))"
  by (simp add: demo_defs step_defs update_eval)

subsection \<open>What a step does to the counters, by its outcome\<close>

lemma currentStreak_update:
  "currentStreak (gameStateRef (update f w)) =
     (case shotOutcome f w of
        NoShot \<Rightarrow> currentStreak (gameStateRef w)
      | Miss \<Rightarrow> 0
      | Hit r \<Rightarrow> currentStreak (gameStateRef w) + 1)"
  by (simp add: shotOutcome_cases gameStateRef_registerMiss gameStateRef_registerHit
      split: shot.splits)

lemma score_update:
  "score (statsRef (update f w)) =
     (case shotOutcome f w of
        Hit r \<Rightarrow> score (statsRef w) + (100 + currentStreak (gameStateRef w) * 10)
      | _ \<Rightarrow> score (statsRef w))"
  by (simp add: shotOutcome_cases statsRef_registerMiss statsRef_registerHit
      split: shot.splits)

lemma bestStreak_update:
  "bestStreak (statsRef (update f w)) =
     (case shotOutcome f w of
        Hit r \<Rightarrow> max (bestStreak (statsRef w)) (currentStreak (gameStateRef w) + 1)
      | _ \<Rightarrow> bestStreak (statsRef w))"
  by (simp add: shotOutcome_cases statsRef_registerMiss statsRef_registerHit
      split: shot.splits)

lemma sounds_update:
  "sounds (update f w) =
     sounds w @ (case shotOutcome f w of NoShot \<Rightarrow> [] | Miss \<Rightarrow> [SndMiss] | Hit r \<Rightarrow> [SndHit])"
  by (simp add: shotOutcome_cases split: shot.splits)

lemma isPinchingPrevious_update:
  "isPinchingPrevious (gameStateRef (update f w)) = isPinching (hand f)"
  by (simp add: shotOutcome_cases gameStateRef_registerMiss gameStateRef_registerHit
      split: shot.splits)

lemma shotOutcome_NoShot: "shotOutcome f w = NoShot \<longleftrightarrow> \<not> didShoot (hand f) (gameStateRef w)"
  by (simp add: shotOutcome_def)

subsection \<open>Runs\<close>

lemma run_append: "run (fs @ gs) w = run gs (run fs w)"
  by (induction fs arbitrary: w) auto

lemma outcomes_append: "outcomes (fs @ gs) w = outcomes fs w @ outcomes gs (run fs w)"
  by (induction fs arbitrary: w) auto

lemma worlds_first: "w \<in> set (worlds fs w)"
  by (cases fs) auto

lemma streak_counts_hits:
  "Miss \<notin> set (outcomes fs w) \<Longrightarrow>
   currentStreak (gameStateRef (run fs w)) =
     currentStreak (gameStateRef w) + real (length (filter isHitShot (outcomes fs w)))"
proof (induction fs arbitrary: w)
  case Nil
  then show ?case by simp
next
  case (Cons f fs)
  then have "Miss \<notin> set (outcomes fs (update f w))" and nm: "shotOutcome f w \<noteq> Miss"
    by auto
  from Cons.IH [OF this(1)] nm show ?case
    by (cases "shotOutcome f w") (simp_all add: currentStreak_update)
qed

text \<open>
  Claim C2. Start where the streak counter is 0 (the session start, or right after a
  miss) and run steps none of which is a miss. If the next step is a hit, it is the k-th
  hit of the streak, for k one more than the hits so far, and it raises the score by
  exactly \<open>100 + 10 * (k - 1)\<close>, where \<open>k - 1\<close> is the streak counter before the hit.
\<close>

theorem streak_hit_score:
  assumes "currentStreak (gameStateRef w) = 0"
      and "Miss \<notin> set (outcomes fs w)"
      and "shotOutcome f (run fs w) = Hit r"
  shows "let k = Suc (length (filter isHitShot (outcomes fs w))) in
           score (statsRef (update f (run fs w)))
             = score (statsRef (run fs w)) + (100 + 10 * (real k - 1))
         \<and> real k - 1 = currentStreak (gameStateRef (run fs w))
         \<and> currentStreak (gameStateRef (update f (run fs w))) = real k"
  using assms streak_counts_hits [of fs w]
  by (simp add: Let_def score_update currentStreak_update)

lemma demo_step1:
  "update pinchFrame demoWorld =
     demoWorld\<lparr>heap := demoHeap(1 := (demoHeap 1)\<lparr>isHit := True\<rparr>),
       targetsRef := [0, 2],
       statsRef := (statsRef demoWorld)\<lparr>score := 100, hits := 1, bestStreak := 1\<rparr>,
       gameStateRef := (gameStateRef demoWorld)\<lparr>currentStreak := 1, reactionTimes := [1100],
          isPinchingPrevious := True\<rparr>,
       sounds := [SndHit]\<rparr>"
  by (simp add: world_eval)

lemma demo_step2:
  "update releaseFrame (update pinchFrame demoWorld) =
     (update pinchFrame demoWorld)\<lparr>gameStateRef :=
        (gameStateRef (update pinchFrame demoWorld))\<lparr>isPinchingPrevious := False\<rparr>\<rparr>"
  unfolding demo_step1 by (simp add: world_eval)

theorem streak_hit_score_witness:
  "currentStreak (gameStateRef demoWorld) = 0
   \<and> Miss \<notin> set (outcomes [pinchFrame, releaseFrame] demoWorld)
   \<and> shotOutcome repinchFrame (run [pinchFrame, releaseFrame] demoWorld) = Hit 0
   \<and> score (statsRef (update repinchFrame (run [pinchFrame, releaseFrame] demoWorld)))
       = score (statsRef (run [pinchFrame, releaseFrame] demoWorld)) + 110"
proof -
  have a: "currentStreak (gameStateRef demoWorld) = 0" by (simp add: demo_defs)
  have o1: "shotOutcome pinchFrame demoWorld = Hit 1" by (simp add: world_eval)
  have o2: "shotOutcome releaseFrame (update pinchFrame demoWorld) = NoShot"
    unfolding demo_step1 by (simp add: world_eval)
  have b: "Miss \<notin> set (outcomes [pinchFrame, releaseFrame] demoWorld)"
    by (simp add: o1 o2)
  have c: "shotOutcome repinchFrame (run [pinchFrame, releaseFrame] demoWorld) = Hit 0"
    unfolding run.simps demo_step2 demo_step1 by (simp add: world_eval)
  have k: "length (filter isHitShot (outcomes [pinchFrame, releaseFrame] demoWorld)) = 1"
    by (simp add: o1 o2)
  from streak_hit_score [OF a b c] a b c show ?thesis
    unfolding Let_def k by simp
qed

text \<open>
  Claim C3. Over a run of one or more consecutive steps that all read a pinching hand,
  a shoot event fires exactly once, in the first step, when the pinch state before the
  run was false, and not at all when it was true; the later steps of the run never
  shoot, and exactly that many sounds are played. Every step, whatever it does, sets
  \<open>isPinchingPrevious\<close> to the pinch state it read.
\<close>

theorem sustained_pinch_shoots_once:
  assumes "fs \<noteq> []" and "\<forall>f \<in> set fs. isPinching (hand f)"
  shows "length (filter (\<lambda>s. s \<noteq> NoShot) (outcomes fs w))
           = (if isPinchingPrevious (gameStateRef w) then 0 else 1)
       \<and> (hd (outcomes fs w) \<noteq> NoShot \<longleftrightarrow> \<not> isPinchingPrevious (gameStateRef w))
       \<and> filter (\<lambda>s. s \<noteq> NoShot) (tl (outcomes fs w)) = []
       \<and> length (sounds (run fs w))
           = length (sounds w) + (if isPinchingPrevious (gameStateRef w) then 0 else 1)
       \<and> isPinchingPrevious (gameStateRef (run fs w))
       \<and> isPinchingPrevious (gameStateRef (update g v)) = isPinching (hand g)"
proof -
  have held: "filter (\<lambda>s. s \<noteq> NoShot) (outcomes gs u) = []
              \<and> length (sounds (run gs u)) = length (sounds u)
              \<and> isPinchingPrevious (gameStateRef (run gs u))"
    if "isPinchingPrevious (gameStateRef u)" "\<forall>f \<in> set gs. isPinching (hand f)" for gs u
    using that
  proof (induction gs arbitrary: u)
    case Nil
    then show ?case by simp
  next
    case (Cons g gs)
    have n: "shotOutcome g u = NoShot"
      using Cons.prems(1) by (simp add: shotOutcome_NoShot didShoot_def)
    have "isPinchingPrevious (gameStateRef (update g u))"
      using Cons.prems(2) by (simp add: isPinchingPrevious_update)
    from Cons.IH [OF this] Cons.prems(2) n show ?case
      by (simp add: sounds_update)
  qed
  from assms(1) obtain f gs where fs: "fs = f # gs" by (cases fs) auto
  with assms(2) have pf: "isPinching (hand f)" and pg: "\<forall>f \<in> set gs. isPinching (hand f)"
    by auto
  have first: "shotOutcome f w \<noteq> NoShot \<longleftrightarrow> \<not> isPinchingPrevious (gameStateRef w)"
    using pf by (simp add: shotOutcome_NoShot didShoot_def)
  have "isPinchingPrevious (gameStateRef (update f w))"
    using pf by (simp add: isPinchingPrevious_update)
  from held [OF this pg] first show ?thesis
    by (cases "shotOutcome f w")
       (auto simp: fs sounds_update isPinchingPrevious_update)
qed

theorem sustained_pinch_shoots_once_witness:
  "isPinching (hand pinchFrame) \<and> isPinching (hand repinchFrame)
   \<and> \<not> isPinchingPrevious (gameStateRef demoWorld)
   \<and> length (filter (\<lambda>s. s \<noteq> NoShot) (outcomes [pinchFrame, repinchFrame, repinchFrame] demoWorld)) = 1
   \<and> length (sounds (run [pinchFrame, repinchFrame, repinchFrame] demoWorld)) = 1"
proof -
  have a: "[pinchFrame, repinchFrame, repinchFrame] \<noteq> []" by simp
  have b: "\<forall>f \<in> set [pinchFrame, repinchFrame, repinchFrame]. isPinching (hand f)"
    by (simp add: demo_defs)
  have c: "\<not> isPinchingPrevious (gameStateRef demoWorld)" by (simp add: demo_defs)
  have d: "length (sounds demoWorld) = 0" by (simp add: demo_defs)
  have e: "isPinching (hand pinchFrame) \<and> isPinching (hand repinchFrame)"
    by (simp add: demo_defs)
  from sustained_pinch_shoots_once [OF a b, of demoWorld] c d e show ?thesis by simp
qed

subsection \<open>The best streak\<close>

lemma best_step:
  assumes "currentStreak (gameStateRef w) \<le> bestStreak (statsRef w)"
      and "0 \<le> bestStreak (statsRef w)"
  shows "bestStreak (statsRef (update f w))
           = max (bestStreak (statsRef w)) (currentStreak (gameStateRef (update f w)))
       \<and> currentStreak (gameStateRef (update f w)) \<le> bestStreak (statsRef (update f w))
       \<and> 0 \<le> bestStreak (statsRef (update f w))"
  using assms
  by (cases "shotOutcome f w") (simp_all add: bestStreak_update currentStreak_update)

lemma best_run:
  assumes "currentStreak (gameStateRef w) \<le> bestStreak (statsRef w)"
      and "0 \<le> bestStreak (statsRef w)"
  shows "bestStreak (statsRef (run fs w))
           = max (bestStreak (statsRef w))
                 (Max (set (map (\<lambda>v. currentStreak (gameStateRef v)) (worlds fs w))))
       \<and> currentStreak (gameStateRef (run fs w)) \<le> bestStreak (statsRef (run fs w))
       \<and> 0 \<le> bestStreak (statsRef (run fs w))"
  using assms
proof (induction fs arbitrary: w)
  case Nil
  then show ?case by simp
next
  case (Cons f fs)
  let ?S = "\<lambda>v. currentStreak (gameStateRef v)"
  let ?w' = "update f w"
  let ?X = "set (map ?S (worlds fs ?w'))"
  from best_step [OF Cons.prems, of f]
  have st: "bestStreak (statsRef ?w') = max (bestStreak (statsRef w)) (?S ?w')"
    and i1: "?S ?w' \<le> bestStreak (statsRef ?w')" and i2: "0 \<le> bestStreak (statsRef ?w')"
    by simp_all
  from Cons.IH [OF i1 i2]
  have ih: "bestStreak (statsRef (run fs ?w')) = max (bestStreak (statsRef ?w')) (Max ?X)"
    and rest: "?S (run fs ?w') \<le> bestStreak (statsRef (run fs ?w'))"
              "0 \<le> bestStreak (statsRef (run fs ?w'))"
    by simp_all
  have fin: "finite ?X" and ne: "?X \<noteq> {}" using worlds_first [of ?w' fs] by auto
  have "?S ?w' \<in> ?X" using worlds_first [of ?w' fs] by auto
  then have le: "?S ?w' \<le> Max ?X" using fin by simp
  have mx: "Max (set (map ?S (worlds (f # fs) w))) = max (?S w) (Max ?X)"
    using fin ne by simp
  have arith: "R = max B (max S M)"
    if "R = max B' M" "B' = max B S'" "S' \<le> M" "S \<le> B" for R B' B S' S M :: real
    using that by linarith
  have "bestStreak (statsRef (run fs ?w')) = max (bestStreak (statsRef w)) (max (?S w) (Max ?X))"
    by (rule arith [OF ih st le Cons.prems(1)])
  with mx rest show ?case by simp
qed

text \<open>
  Claim C10. After any number of steps of a session, \<open>bestStreak\<close> is the maximum of
  the values \<open>currentStreak\<close> has had in the worlds of the session so far (the initial
  one included); it is at least \<open>currentStreak\<close>, and further steps never lower it.
\<close>

theorem bestStreak_is_running_maximum:
  "bestStreak (statsRef (run fs (initWorld d t0)))
     = Max (set (map (\<lambda>v. currentStreak (gameStateRef v)) (worlds fs (initWorld d t0))))
   \<and> currentStreak (gameStateRef (run fs (initWorld d t0)))
       \<le> bestStreak (statsRef (run fs (initWorld d t0)))
   \<and> bestStreak (statsRef (run fs (initWorld d t0)))
       \<le> bestStreak (statsRef (run (fs @ gs) (initWorld d t0)))"
proof -
  let ?S = "\<lambda>v. currentStreak (gameStateRef v)"
  let ?w = "initWorld d t0"
  have i: "?S ?w \<le> bestStreak (statsRef ?w)" "0 \<le> bestStreak (statsRef ?w)"
    and z: "bestStreak (statsRef ?w) = ?S ?w"
    by (simp_all add: initWorld_def)
  let ?X = "set (map ?S (worlds fs ?w))"
  have "?S ?w \<in> ?X" using worlds_first [of ?w fs] by auto
  then have "?S ?w \<le> Max ?X" by simp
  with best_run [OF i, of fs] z have a: "bestStreak (statsRef (run fs ?w)) = Max ?X"
    and inv: "?S (run fs ?w) \<le> bestStreak (statsRef (run fs ?w))"
             "0 \<le> bestStreak (statsRef (run fs ?w))"
    by simp_all
  from best_run [OF inv, of gs]
  have "bestStreak (statsRef (run fs ?w)) \<le> bestStreak (statsRef (run (fs @ gs) ?w))"
    by (simp add: run_append)
  with a inv show ?thesis by simp
qed

section \<open>Properties of the session clock\<close>

lemma underCursor_timeLeft [simp]: "underCursor (w\<lparr>timeLeft := t\<rparr>) = underCursor w"
  by (rule ext) (simp add: underCursor_def)

lemma activeTargets_timeLeft [simp]:
  "activeTargets time (w\<lparr>timeLeft := t\<rparr>) = activeTargets time w"
  by (simp add: activeTargets_def)

lemma registerHit_timeLeft:
  "registerHit time r (w\<lparr>timeLeft := t\<rparr>) = (registerHit time r w)\<lparr>timeLeft := t\<rparr>"
  by (simp add: registerHit_def playSound_def Let_def)

lemma registerMiss_timeLeft:
  "registerMiss (w\<lparr>timeLeft := t\<rparr>) = (registerMiss w)\<lparr>timeLeft := t\<rparr>"
  by (simp add: registerMiss_def playSound_def Let_def)

lemma handleShot_timeLeft:
  "handleShot time (w\<lparr>timeLeft := t\<rparr>) = (handleShot time w)\<lparr>timeLeft := t\<rparr>"
  by (simp add: handleShot_def shootLoop_find registerHit_timeLeft registerMiss_timeLeft
      split: option.splits)

lemma beforeShot_timeLeft:
  "beforeShot f (w\<lparr>timeLeft := t\<rparr>) = (beforeShot f w)\<lparr>timeLeft := t\<rparr>"
  by (simp add: beforeShot_def spawnGate_def spawnTarget_def readCursor_def Let_def)

lemma cleanupTargets_timeLeft:
  "cleanupTargets time (w\<lparr>timeLeft := t\<rparr>) = (cleanupTargets time w)\<lparr>timeLeft := t\<rparr>"
  by (simp add: cleanupTargets_def)

lemma update_timeLeft: "update f (w\<lparr>timeLeft := t\<rparr>) = (update f w)\<lparr>timeLeft := t\<rparr>"
  by (simp add: update_def Let_def beforeShot_timeLeft handleShot_timeLeft
      cleanupTargets_timeLeft)

lemma startTime_update [simp]:
  "startTime (gameStateRef (update f w)) = startTime (gameStateRef w)"
  by (simp add: shotOutcome_cases gameStateRef_registerMiss gameStateRef_registerHit
      split: shot.splits)

lemma startTime_run [simp]: "startTime (gameStateRef (run fs w)) = startTime (gameStateRef w)"
  by (induction fs arbitrary: w) auto

lemma tick_running:
  "remaining d (startTime (gameStateRef w)) (now f) > 0 \<Longrightarrow>
   tick d f w = ((update f w)\<lparr>timeLeft := remaining d (startTime (gameStateRef w)) (now f)\<rparr>, None)"
  by (simp add: tick_def Let_def update_timeLeft)

lemma tick_expired:
  "remaining d (startTime (gameStateRef w)) (now f) \<le> 0 \<Longrightarrow>
   tick d f w = (finalize (w\<lparr>timeLeft := remaining d (startTime (gameStateRef w)) (now f)\<rparr>),
                 Some (statsRef (finalize (w\<lparr>timeLeft := remaining d (startTime (gameStateRef w)) (now f)\<rparr>))))"
  by (simp add: tick_def Let_def)

lemma session_running:
  "\<forall>g \<in> set fs. remaining d (startTime (gameStateRef w)) (now g) > 0 \<Longrightarrow>
   session d (fs @ gs) w =
     session d gs ((run fs w)\<lparr>timeLeft :=
        (if fs = [] then timeLeft w else remaining d (startTime (gameStateRef w)) (now (last fs)))\<rparr>)"
proof (induction fs arbitrary: w)
  case Nil
  then show ?case by simp
next
  case (Cons f fs)
  let ?t = "remaining d (startTime (gameStateRef w)) (now f)"
  let ?w' = "(update f w)\<lparr>timeLeft := ?t\<rparr>"
  have st: "startTime (gameStateRef ?w') = startTime (gameStateRef w)" by simp
  from Cons.prems have "\<forall>g \<in> set fs. remaining d (startTime (gameStateRef ?w')) (now g) > 0"
    by (simp add: st)
  from Cons.IH [OF this] Cons.prems have "session d ((f # fs) @ gs) w =
     session d gs ((run fs ?w')\<lparr>timeLeft :=
        (if fs = [] then timeLeft ?w' else remaining d (startTime (gameStateRef w)) (now (last fs)))\<rparr>)"
    by (simp add: tick_running)
  moreover have "run fs ?w' = (run fs (update f w))\<lparr>timeLeft := ?t\<rparr>"
    by (induction fs arbitrary: w rule: rev_induct) (simp_all add: run_append update_timeLeft)
  ultimately show ?case by simp
qed

subsection \<open>The counters count the outcomes\<close>

lemma hits_update:
  "hits (statsRef (update f w)) = hits (statsRef w) + (if isHitShot (shotOutcome f w) then 1 else 0)"
  by (simp add: shotOutcome_cases statsRef_registerMiss statsRef_registerHit split: shot.splits)

lemma misses_update:
  "misses (statsRef (update f w)) = misses (statsRef w) + (if shotOutcome f w = Miss then 1 else 0)"
  by (simp add: shotOutcome_cases statsRef_registerMiss statsRef_registerHit split: shot.splits)

lemma reactionTimes_update:
  "length (reactionTimes (gameStateRef (update f w)))
     = length (reactionTimes (gameStateRef w)) + (if isHitShot (shotOutcome f w) then 1 else 0)"
  by (simp add: shotOutcome_cases gameStateRef_registerMiss gameStateRef_registerHit
      split: shot.splits)

lemma hits_run:
  "hits (statsRef (run fs w)) = hits (statsRef w) + real (length (filter isHitShot (outcomes fs w)))"
  by (induction fs arbitrary: w) (simp_all add: hits_update)

lemma misses_run:
  "misses (statsRef (run fs w))
     = misses (statsRef w) + real (length (filter (\<lambda>s. s = Miss) (outcomes fs w)))"
  by (induction fs arbitrary: w) (simp_all add: misses_update)

lemma reactionTimes_run:
  "length (reactionTimes (gameStateRef (run fs w)))
     = length (reactionTimes (gameStateRef w)) + length (filter isHitShot (outcomes fs w))"
  by (induction fs arbitrary: w) (simp_all add: reactionTimes_update)

lemma shots_split:
  "length (filter (\<lambda>s. s \<noteq> NoShot) os)
     = length (filter isHitShot os) + length (filter (\<lambda>s. s = Miss) os)"
proof (induction os)
  case Nil
  then show ?case by simp
next
  case (Cons s os)
  then show ?case by (cases s) simp_all
qed

lemma foldl_plus_sum_list: "foldl (\<lambda>a b. a + b) (a :: real) xs = a + sum_list xs"
  by (induction xs arbitrary: a) simp_all

lemma finalize_fields:
  "gameStateRef (finalize w) = gameStateRef w \<and> targetsRef (finalize w) = targetsRef w
   \<and> heap (finalize w) = heap w \<and> sounds (finalize w) = sounds w
   \<and> score (statsRef (finalize w)) = score (statsRef w)
   \<and> hits (statsRef (finalize w)) = hits (statsRef w)
   \<and> misses (statsRef (finalize w)) = misses (statsRef w)
   \<and> bestStreak (statsRef (finalize w)) = bestStreak (statsRef w)"
  by (simp add: finalize_def Let_def)

lemma finalize_derived:
  "accuracy (statsRef (finalize w)) =
     (if hits (statsRef w) + misses (statsRef w) > 0
      then hits (statsRef w) / (hits (statsRef w) + misses (statsRef w)) * 100 else 0)
   \<and> avgReactionTime (statsRef (finalize w)) =
     (if reactionTimes (gameStateRef w) \<noteq> []
      then sum_list (reactionTimes (gameStateRef w)) / real (length (reactionTimes (gameStateRef w)))
      else 0)"
  by (simp add: finalize_def Let_def foldl_plus_sum_list)

text \<open>
  Claim C5. Let the frames \<open>fs\<close> of a session all have time remaining, and let the
  next frame \<open>f\<close> have none. Then the chain is still running after \<open>fs\<close>, ends at
  \<open>f\<close> with \<open>onGameOver\<close> called on the final statistics, and whatever frames \<open>gs\<close>
  might follow change nothing. The final world is the world after the simulation steps
  of \<open>fs\<close> with the derived statistics filled in once: no simulation step runs at
  \<open>f\<close> or later. \<open>hits\<close> counts the hits of the session and \<open>hits + misses\<close> its
  shoot events; \<open>accuracy\<close> is \<open>hits / (hits + misses) * 100\<close> when a shot was fired and
  0 otherwise; \<open>avgReactionTime\<close> is the mean of the recorded reaction times, one per
  hit, when there was a hit and 0 otherwise.
\<close>

theorem session_end_finalizes_once:
  assumes running: "\<forall>g \<in> set fs. remaining d t0 (now g) > 0"
      and expiry: "remaining d t0 (now f) \<le> 0"
  shows "let w1 = run fs (initWorld d t0);
             w' = fst (session d (fs @ f # gs) (initWorld d t0));
             s = statsRef w';
             rts = reactionTimes (gameStateRef w1)
         in snd (session d fs (initWorld d t0)) = None
          \<and> session d (fs @ f # gs) (initWorld d t0) = (w', Some s)
          \<and> session d (fs @ f # gs) (initWorld d t0) = session d (fs @ [f]) (initWorld d t0)
          \<and> w' = finalize (w1\<lparr>timeLeft := 0\<rparr>)
          \<and> hits s = real (length (filter isHitShot (outcomes fs (initWorld d t0))))
          \<and> hits s + misses s
               = real (length (filter (\<lambda>s. s \<noteq> NoShot) (outcomes fs (initWorld d t0))))
          \<and> length rts = length (filter isHitShot (outcomes fs (initWorld d t0)))
          \<and> accuracy s = (if hits s + misses s > 0 then hits s / (hits s + misses s) * 100 else 0)
          \<and> avgReactionTime s = (if hits s > 0 then sum_list rts / real (length rts) else 0)"
proof -
  let ?w0 = "initWorld d t0"
  define w1 where "w1 = run fs ?w0"
  define tl where "tl = (if fs = [] then timeLeft ?w0 else remaining d t0 (now (last fs)))"
  have s0: "startTime (gameStateRef ?w0) = t0" by (simp add: initWorld_def)
  have run': "\<forall>g \<in> set fs. remaining d (startTime (gameStateRef ?w0)) (now g) > 0"
    using running by (simp add: s0)
  have pre: "session d (fs @ hs) ?w0 = session d hs (w1\<lparr>timeLeft := tl\<rparr>)" for hs
    using session_running [OF run', of hs] by (simp add: w1_def tl_def s0)
  have a: "snd (session d fs ?w0) = None" using pre [of "[]"] by simp
  have r0: "remaining d t0 (now f) = 0" using expiry by (simp add: remaining_def)
  have st: "startTime (gameStateRef w1) = t0" by (simp add: w1_def s0)
  have tk: "tick d f (w1\<lparr>timeLeft := tl\<rparr>)
            = (finalize (w1\<lparr>timeLeft := 0\<rparr>), Some (statsRef (finalize (w1\<lparr>timeLeft := 0\<rparr>))))"
    using tick_expired [of d "w1\<lparr>timeLeft := tl\<rparr>" f] by (simp add: st r0)
  have end': "session d (fs @ f # hs) ?w0
            = (finalize (w1\<lparr>timeLeft := 0\<rparr>), Some (statsRef (finalize (w1\<lparr>timeLeft := 0\<rparr>))))" for hs
    by (simp add: pre tk)
  have h: "hits (statsRef w1) = real (length (filter isHitShot (outcomes fs ?w0)))"
    by (simp add: w1_def hits_run initWorld_def)
  have m: "misses (statsRef w1) = real (length (filter (\<lambda>s. s = Miss) (outcomes fs ?w0)))"
    by (simp add: w1_def misses_run initWorld_def)
  have l: "length (reactionTimes (gameStateRef w1)) = length (filter isHitShot (outcomes fs ?w0))"
    by (simp add: w1_def reactionTimes_run initWorld_def)
  have hm: "hits (statsRef w1) + misses (statsRef w1)
            = real (length (filter (\<lambda>s. s \<noteq> NoShot) (outcomes fs ?w0)))"
    by (simp add: h m shots_split)
  have pos: "hits (statsRef w1) > 0 \<longleftrightarrow> reactionTimes (gameStateRef w1) \<noteq> []"
    using h l by (metis length_greater_0_conv of_nat_0_less_iff)
  show ?thesis
    unfolding Let_def w1_def [symmetric]
    using a end' [of gs] end' [of "[]"] h hm l pos
      finalize_fields [of "w1\<lparr>timeLeft := 0\<rparr>"] finalize_derived [of "w1\<lparr>timeLeft := 0\<rparr>"]
    by simp
qed

lemma session_outcomes:
  "outcomes [pinchFrame, releaseFrame, repinchFrame] (initWorld 30 0) = [Hit 0, NoShot, Miss]"
  by (simp add: world_eval initWorld_def)

theorem session_end_finalizes_once_witness:
  "remaining 30 0 (now pinchFrame) > 0 \<and> remaining 30 0 (now releaseFrame) > 0
   \<and> remaining 30 0 (now repinchFrame) > 0 \<and> remaining 30 0 (now endFrame) \<le> 0
   \<and> session 30 ([pinchFrame, releaseFrame, repinchFrame] @ endFrame # [pinchFrame]) (initWorld 30 0)
       = session 30 ([pinchFrame, releaseFrame, repinchFrame] @ [endFrame]) (initWorld 30 0)
   \<and> hits (statsRef (fst (session 30 ([pinchFrame, releaseFrame, repinchFrame] @ endFrame # [pinchFrame])
         (initWorld 30 0)))) = 1
   \<and> accuracy (statsRef (fst (session 30 ([pinchFrame, releaseFrame, repinchFrame] @ endFrame # [pinchFrame])
         (initWorld 30 0)))) = 50"
proof -
  have r: "remaining 30 0 (now pinchFrame) > 0 \<and> remaining 30 0 (now releaseFrame) > 0
      \<and> remaining 30 0 (now repinchFrame) > 0"
    by (simp add: remaining_def demo_defs)
  then have a: "\<forall>g \<in> set [pinchFrame, releaseFrame, repinchFrame]. remaining 30 0 (now g) > 0"
    by simp
  have b: "remaining 30 0 (now endFrame) \<le> 0" by (simp add: remaining_def demo_defs)
  define s where "s = statsRef (fst (session 30
      ([pinchFrame, releaseFrame, repinchFrame] @ endFrame # [pinchFrame]) (initWorld 30 0)))"
  note T = session_end_finalizes_once [OF a b, of "[pinchFrame]",
      unfolded Let_def session_outcomes, folded s_def]
  from T have e: "session 30 ([pinchFrame, releaseFrame, repinchFrame] @ endFrame # [pinchFrame]) (initWorld 30 0)
       = session 30 ([pinchFrame, releaseFrame, repinchFrame] @ [endFrame]) (initWorld 30 0)"
    by blast
  from T have "hits s = real (length (filter isHitShot [Hit 0, NoShot, Miss]))" by blast
  then have h: "hits s = 1" by simp
  from T have "hits s + misses s = real (length (filter (\<lambda>s. s \<noteq> NoShot) [Hit 0, NoShot, Miss]))"
    by blast
  with h have m: "misses s = 1" by simp
  from T have "accuracy s = (if hits s + misses s > 0 then hits s / (hits s + misses s) * 100 else 0)"
    by blast
  then have acc: "accuracy s = 50" by (simp add: h m)
  from r b e h acc show ?thesis unfolding s_def by blast
qed

section \<open>Properties of the coach service\<close>

text \<open>
  Claim C9, amended. \<open>getCoachFeedback\<close> never lets an exception out. Without a key it
  returns the first fallback; with a key, when the request throws, or when a non-empty
  response text does not parse, it returns the second fallback; both fallbacks have the
  fields summary, tips and rank. A text that parses is returned as parsed. When the
  response text is undefined or empty the result is \<open>null\<close>.
\<close>

theorem coach_feedback_results:
  "(\<exists>v. getCoachFeedback env stats = Inr v)
   \<and> getCoachFeedback \<lparr>apiKey = [], generateContent = g, JSON_parse = p\<rparr> stats
       = Inr noKeyFallback
   \<and> getCoachFeedback \<lparr>apiKey = c # cs, generateContent = Inl e, JSON_parse = p\<rparr> stats
       = Inr errorFallback
   \<and> getCoachFeedback \<lparr>apiKey = c # cs, generateContent = Inr (Some (t # ts)),
                       JSON_parse = Inl e\<rparr> stats
       = Inr errorFallback
   \<and> getCoachFeedback \<lparr>apiKey = c # cs, generateContent = Inr (Some (t # ts)),
                       JSON_parse = Inr v\<rparr> stats
       = Inr v
   \<and> getCoachFeedback \<lparr>apiKey = c # cs, generateContent = Inr None, JSON_parse = p\<rparr> stats
       = Inr JNull
   \<and> getCoachFeedback \<lparr>apiKey = c # cs, generateContent = Inr (Some []), JSON_parse = p\<rparr> stats
       = Inr JNull
   \<and> isStructured noKeyFallback \<and> isStructured errorFallback"
proof -
  have "\<exists>v. getCoachFeedback env stats = Inr v"
    by (cases "generateContent env"; cases "JSON_parse env")
       (auto simp: getCoachFeedback_def tryCatch_def)
  then show ?thesis
    by (simp add: getCoachFeedback_def tryCatch_def noKeyFallback_def errorFallback_def)
qed

text \<open>
  Claim C9 as stated fails: with a key and a response whose text is the empty string,
  which \<open>JSON.parse\<close> rejects, the function returns \<open>null\<close>, not a structured fallback.
\<close>

theorem empty_response_returns_null_counterexample:
  "getCoachFeedback
     \<lparr>apiKey = ''key'', generateContent = Inr (Some []), JSON_parse = Inl SyntaxError\<rparr>
     \<lparr>score = 100, hits = 1, misses = 0, accuracy = 100, avgReactionTime = 400,
      bestStreak = 1\<rparr>
   = Inr JNull
   \<and> \<not> isStructured JNull"
  by (simp add: getCoachFeedback_def tryCatch_def)

section \<open>Every world of a session is well formed\<close>

lemma wellFormed_initWorld: "wellFormed (initWorld d t0)"
  by (simp add: wellFormed_def initWorld_def)

lemma wellFormed_cleanupTargets: "wellFormed w \<Longrightarrow> wellFormed (cleanupTargets time w)"
  by (simp add: wellFormed_def cleanupTargets_def sorted_wrt_filter)

lemma wellFormed_registerHit: "wellFormed w \<Longrightarrow> wellFormed (registerHit time r w)"
  by (simp add: wellFormed_def registerHit_def playSound_def Let_def)

lemma wellFormed_registerMiss: "wellFormed w \<Longrightarrow> wellFormed (registerMiss w)"
  by (simp add: wellFormed_def registerMiss_def playSound_def Let_def)

lemma wellFormed_update: "wellFormed w \<Longrightarrow> wellFormed (update f w)"
  by (cases "shotOutcome f w")
     (simp_all add: shotOutcome_cases wellFormed_cleanupTargets wellFormed_registerHit
        wellFormed_registerMiss wellFormed_beforeShot)

lemma wellFormed_run: "wellFormed w \<Longrightarrow> wellFormed (run fs w)"
  by (induction fs arbitrary: w) (simp_all add: wellFormed_update)

lemma wellFormed_session: "wellFormed (run fs (initWorld d t0))"
  by (simp add: wellFormed_run wellFormed_initWorld)

end
